theory Spec2Isabelle
  imports Main "HOL-Library.DAList"
begin

section \<open>Data model of \<open>fedrec/utilities/registry.py\<close>\<close>

text \<open>
  Values that a configuration can hold. Strings are the only values that can name a
  registered constructor; \<open>VList\<close> stands for the unhashable values.
\<close>

datatype pyval = VNone | VBool bool | VInt int | VStr string | VList "pyval list"

text \<open>
  A Python \<open>dict\<close> with string keys: an insertion-ordered association list whose keys
  are distinct. \<open>DAList.update\<close> overwrites in place or appends at the end,
  \<open>DAList.delete\<close> is \<open>pop\<close>, \<open>DAList.lookup\<close> is \<open>get\<close>.
\<close>

type_synonym pydict = "(string, pyval) alist"

text \<open>The parameter kinds of \<open>inspect.Parameter\<close>.\<close>

datatype param_kind =
  POSITIONAL_ONLY | POSITIONAL_OR_KEYWORD | VAR_POSITIONAL | KEYWORD_ONLY | VAR_KEYWORD

text \<open>
  What \<open>issubclass(obj, Registrable)\<close> does on an object: true, false, or a
  \<open>TypeError\<close> when the object is not a class.
\<close>

datatype obj_sort = RegistrableClass | PlainClass | NotAClass

text \<open>
  A constructor reference: the attributes of the callable object that the registry reads,
  \<open>__module__\<close>, \<open>__name__\<close>, and \<open>inspect.signature(obj).parameters\<close> as the
  ordered list of parameter names with their kinds.
\<close>

record ctor =
  obj_module :: string
  obj_name :: string
  obj_sort :: obj_sort
  parameters :: "(string \<times> param_kind) list"

datatype error =
    AssertionError string
  | LookupError string
  | KeyError pyval
  | ValueError string
  | TypeError string

text \<open>
  \<open>LOOKUP_DICT = collections.defaultdict(dict)\<close>: kind to bucket, bucket: name to
  constructor. A kind that was never read or written has no bucket (\<open>None\<close>).
\<close>

type_synonym bucket = "string \<rightharpoonup> ctor"
type_synonym store = "string \<rightharpoonup> bucket"

definition LOOKUP_DICT :: store where
  "LOOKUP_DICT = Map.empty"

text \<open>\<open>LOOKUP_DICT[k]\<close> on the defaultdict: a missing key is inserted with an empty dict.\<close>

definition getitem_default :: "store \<Rightarrow> string \<Rightarrow> bucket \<times> store" where
  "getitem_default S k =
     (case S k of None \<Rightarrow> (Map.empty, S(k \<mapsto> Map.empty)) | Some b \<Rightarrow> (b, S))"

text \<open>
  The bucket object a closure variable is bound to. \<open>registry\<close> and \<open>class_ref\<close> of
  \<open>load\<close> alias \<open>LOOKUP_DICT[kind]\<close> and \<open>LOOKUP_DICT["class_map"]\<close>; no code
  removes or rebinds a bucket, so the closure reads and writes through the store.
\<close>

definition bucket_of :: "store \<Rightarrow> string \<Rightarrow> bucket" where
  "bucket_of S k = (case S k of None \<Rightarrow> Map.empty | Some b \<Rightarrow> b)"

definition dquote :: string where
  "dquote = [CHR 0x22]"

section \<open>Registration: \<open>load\<close> and its decorator\<close>

text \<open>
  The closure that \<open>load(kind, name)\<close> returns. The \<open>assert\<close> of \<open>load\<close> is a raise
  of \<open>AssertionError\<close> (assertions are on).
\<close>

datatype closure = Decorator string string

definition load :: "string \<Rightarrow> string \<Rightarrow> store \<Rightarrow> (error + closure) \<times> store" where
  "load kind name S =
     (if kind = ''class_map''
      then (Inl (AssertionError (''reserved keyword for kind '' @ dquote @ ''class_map'' @ dquote)), S)
      else (let (registry, S1) = getitem_default S kind;
                (class_ref, S2) = getitem_default S1 ''class_map''
            in (Inr (Decorator kind name), S2)))"

text \<open>\<open>f"{obj.__module__}.{obj.__name__}"\<close>\<close>

definition qualname :: "ctor \<Rightarrow> string" where
  "qualname obj = obj_module obj @ ''.'' @ obj_name obj"

fun decorator :: "closure \<Rightarrow> ctor \<Rightarrow> store \<Rightarrow> (error + ctor) \<times> store" where
  "decorator (Decorator kind name) obj S =
     (let registry = bucket_of S kind in
      if registry name \<noteq> None
      then (Inl (LookupError (name @ '' already present'')), S)
      else (let S1 = S(kind \<mapsto> registry(name \<mapsto> obj));
                S2 = S1(''class_map'' \<mapsto> (bucket_of S1 ''class_map'')(qualname obj \<mapsto> obj))
            in (Inr obj, S2)))"

text \<open>\<open>@load(kind, name)\<close> in front of a definition: \<open>load(kind, name)(obj)\<close>.\<close>

definition register :: "string \<Rightarrow> string \<Rightarrow> ctor \<Rightarrow> store \<Rightarrow> (error + ctor) \<times> store" where
  "register kind name obj S =
     (case load kind name S of
        (Inl e, S1) \<Rightarrow> (Inl e, S1)
      | (Inr d, S1) \<Rightarrow> decorator d obj S1)"

section \<open>Resolution: \<open>lookup\<close>\<close>

text \<open>The second argument of \<open>lookup\<close>: a name, or a configuration mapping.\<close>

datatype name_arg = Name string | Mapping pydict

text \<open>
  \<open>bucket[key]\<close> on a bucket whose keys are strings: an unhashable key is a
  \<open>TypeError\<close>, any other absent key the \<open>KeyError\<close> of that key.
\<close>

definition bucket_getitem :: "bucket \<Rightarrow> pyval \<Rightarrow> error + ctor" where
  "bucket_getitem b key =
     (case key of
        VStr s \<Rightarrow> (case b s of None \<Rightarrow> Inl (KeyError key) | Some c \<Rightarrow> Inr c)
      | VList xs \<Rightarrow> Inl (TypeError ''unhashable type'')
      | _ \<Rightarrow> Inl (KeyError key))"

definition nothing_registered :: "string \<Rightarrow> string" where
  "nothing_registered kind = ''Nothing registered under '' @ dquote @ kind @ dquote"

definition lookup :: "store \<Rightarrow> string \<Rightarrow> name_arg \<Rightarrow> error + ctor" where
  "lookup S kind name =
     (case (case name of
              Mapping d \<Rightarrow>
                (case DAList.lookup d ''name'' of
                   None \<Rightarrow> Inl (KeyError (VStr ''name''))
                 | Some v \<Rightarrow> Inr v)
            | Name s \<Rightarrow> Inr (VStr s)) of
        Inl e \<Rightarrow> Inl e
      | Inr name' \<Rightarrow>
          (case S kind of
             None \<Rightarrow> Inl (KeyError (VStr (nothing_registered kind)))
           | Some b \<Rightarrow> bucket_getitem b name'))"

section \<open>The identity capability: \<open>Registrable\<close>\<close>

definition type_name :: "ctor \<Rightarrow> string" where
  "type_name cls = obj_module cls @ ''.'' @ obj_name cls"

definition register_class_ref :: "ctor \<Rightarrow> string option \<Rightarrow> store \<Rightarrow> (error + ctor) \<times> store" where
  "register_class_ref class_ref name S =
     (case (case name of
              None \<Rightarrow>
                (case obj_sort class_ref of
                   RegistrableClass \<Rightarrow> Inr (type_name class_ref)
                 | PlainClass \<Rightarrow>
                     Inl (AssertionError ''Annotated class must be a subclass of Registrable'')
                 | NotAClass \<Rightarrow> Inl (TypeError ''issubclass() arg 1 must be a class''))
            | Some n \<Rightarrow> Inr n) of
        Inl e \<Rightarrow> (Inl e, S)
      | Inr name' \<Rightarrow>
          (let (class_map, S1) = getitem_default S ''class_map''
           in (Inr class_ref, S1(''class_map'' \<mapsto> class_map(name' \<mapsto> class_ref)))))"

definition no_class_found :: "string \<Rightarrow> string" where
  "no_class_found class_name = ''No class found for '' @ dquote @ class_name @ dquote"

definition lookup_class_ref :: "string \<Rightarrow> store \<Rightarrow> (error + ctor) \<times> store" where
  "lookup_class_ref class_name S =
     (let (class_map, S1) = getitem_default S ''class_map'' in
      case class_map class_name of
        None \<Rightarrow> (Inl (KeyError (VStr (no_class_found class_name))), S1)
      | Some c \<Rightarrow> (Inr c, S1))"

section \<open>Sequences of calls on the store\<close>

text \<open>
  Every call of the module that can write to \<open>LOOKUP_DICT\<close>: \<open>load\<close> whose decorator
  is not applied, \<open>load\<close> with its decorator applied, \<open>register_class_ref\<close> and
  \<open>lookup_class_ref\<close> (which creates the \<open>class_map\<close> bucket). A failed call leaves
  the store as the exception left it.
\<close>

datatype action =
    Load string string
  | Register string string ctor
  | RegisterClassRef ctor "string option"
  | LookupClassRef string

fun perform :: "action \<Rightarrow> store \<Rightarrow> store" where
  "perform (Load kind name) S = snd (load kind name S)"
| "perform (Register kind name obj) S = snd (register kind name obj S)"
| "perform (RegisterClassRef class_ref name) S = snd (register_class_ref class_ref name S)"
| "perform (LookupClassRef class_name) S = snd (lookup_class_ref class_name S)"

definition run :: "action list \<Rightarrow> store \<Rightarrow> store" where
  "run acts S = fold perform acts S"

section \<open>Instantiation: \<open>instantiate\<close> and \<open>construct\<close>\<close>

text \<open>
  \<open>config\<close> is a reference to a dict with string keys, \<open>unused_keys\<close> a tuple of
  strings, \<open>kwargs\<close> the dict that the call collects the keyword overrides in.
  Dict objects are mutable and live in a heap, addressed by reference; \<open>nxt\<close> is the next unused address, so that a dict display
  \<open>{...}\<close> allocates a new object. \<open>stderr\<close> collects what \<open>print(..., file=sys.stderr)\<close>
  writes, one entry per call of \<open>print\<close>.
\<close>

datatype diagnostic = WARNING ctor pydict

record pystate =
  heap :: "nat \<Rightarrow> pydict"
  nxt :: nat
  stderr :: "diagnostic list"

text \<open>
  The call \<open>callable(**merged)\<close>, with the keyword arguments it receives. What the
  constructor returns or raises is the constructor's own and is propagated as it is.
\<close>

datatype invocation = Invoke ctor pydict

definition new_dict :: "pydict \<Rightarrow> pystate \<Rightarrow> nat \<times> pystate" where
  "new_dict d s = (nxt s, s\<lparr>heap := (heap s)(nxt s := d), nxt := Suc (nxt s)\<rparr>)"

text \<open>\<open>{**config, **kwargs}\<close>: the entries of \<open>config\<close>, then each entry of \<open>kwargs\<close> stored in turn.\<close>

definition dict_merge :: "pydict \<Rightarrow> pydict \<Rightarrow> pydict" where
  "dict_merge config kwargs = fold (\<lambda>(k, v). DAList.update k v) (DAList.impl_of kwargs) config"

definition dict_keys :: "pydict \<Rightarrow> string list" where
  "dict_keys d = map fst (DAList.impl_of d)"

definition kind_str :: "param_kind \<Rightarrow> string" where
  "kind_str k =
     (case k of
        POSITIONAL_ONLY \<Rightarrow> ''POSITIONAL_ONLY''
      | POSITIONAL_OR_KEYWORD \<Rightarrow> ''POSITIONAL_OR_KEYWORD''
      | VAR_POSITIONAL \<Rightarrow> ''VAR_POSITIONAL''
      | KEYWORD_ONLY \<Rightarrow> ''KEYWORD_ONLY''
      | VAR_KEYWORD \<Rightarrow> ''VAR_KEYWORD'')"

text \<open>The first parameter, in declaration order, that the first loop of \<open>instantiate\<close> rejects.\<close>

definition unsupported_param :: "ctor \<Rightarrow> (string \<times> param_kind) option" where
  "unsupported_param callable =
     find (\<lambda>(name, kind). kind = POSITIONAL_ONLY \<or> kind = VAR_POSITIONAL) (parameters callable)"

definition has_var_keyword :: "ctor \<Rightarrow> bool" where
  "has_var_keyword callable = list_ex (\<lambda>(name, kind). kind = VAR_KEYWORD) (parameters callable)"

text \<open>\<open>key in signature.parameters\<close>\<close>

definition declares :: "ctor \<Rightarrow> string \<Rightarrow> bool" where
  "declares callable key = (key \<in> set (map fst (parameters callable)))"

text \<open>
  The loop \<open>for key in list(merged.keys())\<close> over the snapshot \<open>keys\<close>, with \<open>merged\<close>
  the dict object at address \<open>m\<close>. \<open>merged[key]\<close> and \<open>merged.pop(key)\<close> raise
  \<open>KeyError(key)\<close> on an absent key.
\<close>

fun superfluous_loop ::
  "ctor \<Rightarrow> string list \<Rightarrow> nat \<Rightarrow> string list \<Rightarrow> pydict \<Rightarrow> pystate \<Rightarrow> (error + pydict) \<times> pystate"
where
  "superfluous_loop callable unused_keys m [] missing s = (Inr missing, s)"
| "superfluous_loop callable unused_keys m (key # keys) missing s =
     (if \<not> declares callable key then
        (case DAList.lookup (heap s m) key of
           None \<Rightarrow> (Inl (KeyError (VStr key)), s)
         | Some v \<Rightarrow>
             superfluous_loop callable unused_keys m keys
               (if key \<notin> set unused_keys then DAList.update key v missing else missing)
               (s\<lparr>heap := (heap s)(m := DAList.delete key (heap s m))\<rparr>))
      else superfluous_loop callable unused_keys m keys missing s)"

definition instantiate ::
  "ctor \<Rightarrow> nat \<Rightarrow> string list \<Rightarrow> pydict \<Rightarrow> pystate \<Rightarrow> (error + invocation) \<times> pystate"
where
  "instantiate callable config unused_keys kwargs s =
     (let (merged, s1) = new_dict (dict_merge (heap s config) kwargs) s in
      case unsupported_param callable of
        Some (name, kind) \<Rightarrow>
          (Inl (ValueError (''Unsupported kind for param '' @ name @ '': '' @ kind_str kind)), s1)
      | None \<Rightarrow>
          if has_var_keyword callable then (Inr (Invoke callable (heap s1 merged)), s1)
          else
            (case superfluous_loop callable unused_keys merged (dict_keys (heap s1 merged))
                    DAList.empty s1 of
               (Inl e, s2) \<Rightarrow> (Inl e, s2)
             | (Inr missing, s2) \<Rightarrow>
                 (let s3 = (if DAList.impl_of missing \<noteq> []
                            then s2\<lparr>stderr := stderr s2 @ [WARNING callable missing]\<rparr>
                            else s2)
                  in (Inr (Invoke callable (heap s3 merged)), s3))))"

text \<open>The \<open>config\<close> argument of \<open>construct\<close>: a name, or a reference to a dict object.\<close>

datatype config_arg = Str string | Dict nat

text \<open>
  \<open>construct\<close> passes its \<open>**kwargs\<close> on to \<open>instantiate(callable, config, unused_keys, **kwargs)\<close>:
  a keyword \<open>callable\<close> among them collides with the first positional argument, a
  \<open>TypeError\<close> of the call; \<open>config\<close> and \<open>unused_keys\<close> are parameters of
  \<open>construct\<close> itself and cannot be in its \<open>kwargs\<close>.
\<close>

definition construct ::
  "store \<Rightarrow> string \<Rightarrow> config_arg \<Rightarrow> string list \<Rightarrow> pydict \<Rightarrow> pystate \<Rightarrow> (error + invocation) \<times> pystate"
where
  "construct S kind config unused_keys kwargs s =
     (let (config', s1) =
            (case config of
               Str n \<Rightarrow> new_dict (DAList.update ''name'' (VStr n) DAList.empty) s
             | Dict a \<Rightarrow> (a, s))
      in case lookup S kind (Mapping (heap s1 config')) of
           Inl e \<Rightarrow> (Inl e, s1)
         | Inr callable \<Rightarrow>
             if ''callable'' \<in> set (dict_keys kwargs)
             then (Inl (TypeError ''instantiate() got multiple values for argument callable''), s1)
             else instantiate callable config' (unused_keys @ [''name'']) kwargs s1)"

section \<open>Histories of the store\<close>

text \<open>
  \<open>creates_bucket k a\<close>: the call \<open>a\<close> reads \<open>LOOKUP_DICT[k]\<close> through the
  defaultdict, so that the bucket of \<open>k\<close> exists afterwards. \<open>writes_class ident a\<close>:
  the call \<open>a\<close> may store a constructor under \<open>ident\<close> in the \<open>class_map\<close> bucket.
\<close>

definition creates_bucket :: "string \<Rightarrow> action \<Rightarrow> bool" where
  "creates_bucket k a =
     (case a of
        Load kind name \<Rightarrow> kind \<noteq> ''class_map'' \<and> (k = kind \<or> k = ''class_map'')
      | Register kind name obj \<Rightarrow> kind \<noteq> ''class_map'' \<and> (k = kind \<or> k = ''class_map'')
      | RegisterClassRef class_ref name \<Rightarrow>
          k = ''class_map'' \<and> (name \<noteq> None \<or> obj_sort class_ref = RegistrableClass)
      | LookupClassRef class_name \<Rightarrow> k = ''class_map'')"

definition writes_class :: "string \<Rightarrow> action \<Rightarrow> bool" where
  "writes_class ident a =
     (case a of
        Load kind name \<Rightarrow> False
      | Register kind name obj \<Rightarrow> kind \<noteq> ''class_map'' \<and> qualname obj = ident
      | RegisterClassRef class_ref name \<Rightarrow>
          (case name of
             None \<Rightarrow> obj_sort class_ref = RegistrableClass \<and> type_name class_ref = ident
           | Some n \<Rightarrow> n = ident)
      | LookupClassRef class_name \<Rightarrow> False)"


section \<open>Example constructors\<close>

definition ex_A :: ctor where
  "ex_A = \<lparr>obj_module = ''pkg.models'', obj_name = ''A'', obj_sort = PlainClass,
           parameters = [(''a'', POSITIONAL_OR_KEYWORD), (''b'', POSITIONAL_OR_KEYWORD)]\<rparr>"

definition ex_A' :: ctor where
  "ex_A' = \<lparr>obj_module = ''pkg.models'', obj_name = ''A'', obj_sort = PlainClass,
            parameters = [(''a'', POSITIONAL_OR_KEYWORD)]\<rparr>"

definition ex_R :: ctor where
  "ex_R = \<lparr>obj_module = ''pkg.workers'', obj_name = ''R'', obj_sort = RegistrableClass,
           parameters = [(''a'', POSITIONAL_OR_KEYWORD), (''rest'', VAR_KEYWORD)]\<rparr>"

definition ex_P :: ctor where
  "ex_P = \<lparr>obj_module = ''pkg.models'', obj_name = ''P'', obj_sort = PlainClass,
           parameters = [(''x'', POSITIONAL_ONLY), (''a'', POSITIONAL_OR_KEYWORD)]\<rparr>"


definition ex_F :: ctor where
  "ex_F = \<lparr>obj_module = ''pkg.models'', obj_name = ''make_model'', obj_sort = NotAClass,
           parameters = [(''a'', POSITIONAL_OR_KEYWORD)]\<rparr>"

definition ex_cfg :: pydict where
  "ex_cfg = DAList.update ''c'' (VInt 3) (DAList.update ''a'' (VInt 1)
              (DAList.update ''name'' (VStr ''dlrm'') DAList.empty))"


definition ex_kw :: pydict where
  "ex_kw = DAList.update ''b'' (VInt 99) DAList.empty"

definition ex_ab :: pydict where
  "ex_ab = DAList.update ''b'' (VInt 2) (DAList.update ''a'' (VInt 1) DAList.empty)"

definition ex_state :: pystate where
  "ex_state = \<lparr>heap = (\<lambda>a. DAList.empty)(0 := ex_cfg, 1 := ex_ab), nxt = 2, stderr = []\<rparr>"

definition ex_store :: store where
  "ex_store = run [Register ''model'' ''dlrm'' ex_A, Register ''worker'' ''r'' ex_R] LOOKUP_DICT"

section \<open>What the filter of \<open>instantiate\<close> is to compute\<close>

text \<open>
  The two parts of the merged mapping that step 4 of the specification names: the entries
  whose key is a declared parameter (passed on), and the entries whose key is neither
  declared nor listed in \<open>unused_keys\<close> (reported).
\<close>

definition recognized :: "ctor \<Rightarrow> pydict \<Rightarrow> pydict" where
  "recognized callable merged = DAList.filter (\<lambda>p. declares callable (fst p)) merged"

definition superfluous :: "ctor \<Rightarrow> string list \<Rightarrow> pydict \<Rightarrow> pydict" where
  "superfluous callable unused_keys merged =
     DAList.filter (\<lambda>p. \<not> declares callable (fst p) \<and> fst p \<notin> set unused_keys) merged"


section \<open>Properties of the store operations\<close>

lemmas ex_defs = ex_A_def ex_A'_def ex_R_def ex_P_def ex_F_def

lemma bucket_of_upd: "bucket_of (S(k \<mapsto> b)) k' = (if k' = k then b else bucket_of S k')"
  by (simp add: bucket_of_def)

lemma load_eq:
  "load kind name S =
     (if kind = ''class_map''
      then (Inl (AssertionError (''reserved keyword for kind '' @ dquote @ ''class_map'' @ dquote)), S)
      else (Inr (Decorator kind name),
            S(kind \<mapsto> bucket_of S kind, ''class_map'' \<mapsto> bucket_of S ''class_map'')))"
  by (auto simp: load_def getitem_default_def bucket_of_def split: option.splits)

lemma register_eq:
  "register kind name obj S =
     (if kind = ''class_map''
      then (Inl (AssertionError (''reserved keyword for kind '' @ dquote @ ''class_map'' @ dquote)), S)
      else if bucket_of S kind name \<noteq> None
      then (Inl (LookupError (name @ '' already present'')),
            S(kind \<mapsto> bucket_of S kind, ''class_map'' \<mapsto> bucket_of S ''class_map''))
      else (Inr obj,
            S(kind \<mapsto> (bucket_of S kind)(name \<mapsto> obj),
              ''class_map'' \<mapsto> (bucket_of S ''class_map'')(qualname obj \<mapsto> obj))))"
  by (auto simp: register_def load_eq bucket_of_upd Let_def fun_upd_twist)

lemma register_class_ref_eq:
  "register_class_ref class_ref name S =
     (case name of
        None \<Rightarrow>
          (case obj_sort class_ref of
             RegistrableClass \<Rightarrow>
               (Inr class_ref,
                S(''class_map'' \<mapsto> (bucket_of S ''class_map'')(type_name class_ref \<mapsto> class_ref)))
           | PlainClass \<Rightarrow>
               (Inl (AssertionError ''Annotated class must be a subclass of Registrable''), S)
           | NotAClass \<Rightarrow> (Inl (TypeError ''issubclass() arg 1 must be a class''), S))
      | Some n \<Rightarrow>
          (Inr class_ref, S(''class_map'' \<mapsto> (bucket_of S ''class_map'')(n \<mapsto> class_ref))))"
  by (auto simp: register_class_ref_def getitem_default_def bucket_of_def
           split: option.splits obj_sort.splits)

lemma lookup_class_ref_eq:
  "lookup_class_ref class_name S =
     (case bucket_of S ''class_map'' class_name of
        None \<Rightarrow> Inl (KeyError (VStr (no_class_found class_name)))
      | Some c \<Rightarrow> Inr c,
      S(''class_map'' \<mapsto> bucket_of S ''class_map''))"
  by (auto simp: lookup_class_ref_def getitem_default_def bucket_of_def split: option.splits)

lemma perform_keeps:
  assumes "kind \<noteq> ''class_map''" "bucket_of S kind name = Some c"
  shows "bucket_of (perform a S) kind name = Some c"
  using assms
  by (cases a)
     (auto simp: load_eq register_eq register_class_ref_eq lookup_class_ref_eq bucket_of_upd
           split: option.splits obj_sort.splits)

lemma perform_bucket_None:
  "perform a S k = None \<longleftrightarrow> S k = None \<and> \<not> creates_bucket k a"
  by (cases a)
     (auto simp: creates_bucket_def load_eq register_eq register_class_ref_eq lookup_class_ref_eq
           split: option.splits obj_sort.splits)

lemma run_bucket_None:
  "run acts S k = None \<longleftrightarrow> S k = None \<and> list_all (\<lambda>a. \<not> creates_bucket k a) acts"
  unfolding run_def
  by (induction acts arbitrary: S) (auto simp: perform_bucket_None)

lemma perform_class_None:
  assumes "bucket_of S ''class_map'' ident = None" "\<not> writes_class ident a"
  shows "bucket_of (perform a S) ''class_map'' ident = None"
  using assms
  by (cases a)
     (auto simp: writes_class_def load_eq register_eq register_class_ref_eq lookup_class_ref_eq
                 bucket_of_upd
           split: option.splits obj_sort.splits)

lemma run_class_None:
  assumes "bucket_of S ''class_map'' ident = None" "list_all (\<lambda>a. \<not> writes_class ident a) acts"
  shows "bucket_of (run acts S) ''class_map'' ident = None"
  using assms unfolding run_def
  by (induction acts arbitrary: S) (auto simp: perform_class_None)

lemma lookup_Name:
  "lookup S kind (Name n) =
     (case S kind of
        None \<Rightarrow> Inl (KeyError (VStr (nothing_registered kind)))
      | Some b \<Rightarrow> (case b n of None \<Rightarrow> Inl (KeyError (VStr n)) | Some c \<Rightarrow> Inr c))"
  by (simp add: lookup_def bucket_getitem_def split: option.splits)

lemma lookup_Mapping:
  "DAList.lookup d ''name'' = Some v \<Longrightarrow>
   lookup S kind (Mapping d) =
     (case S kind of
        None \<Rightarrow> Inl (KeyError (VStr (nothing_registered kind)))
      | Some b \<Rightarrow> bucket_getitem b v)"
  by (simp add: lookup_def split: option.splits)

lemma bucket_of_empty: "bucket_of (\<lambda>x. None) k = (\<lambda>x. None)"
  by (simp add: bucket_of_def)

lemmas store_eqs = bucket_of_empty load_eq register_eq register_class_ref_eq lookup_class_ref_eq bucket_of_upd


lemma lookup_ex_cfg_name: "DAList.lookup ex_cfg ''name'' = Some (VStr ''dlrm'')"
  by (simp add: ex_cfg_def)


section \<open>Claims about registration\<close>

text \<open>
  C1 (as amended). In every bucket other than \<open>class_map\<close> an insertion never overwrites:
  an entry \<open>(kind, name)\<close> that holds constructor \<open>c\<close> holds the same \<open>c\<close> after any
  further sequence of \<open>load\<close>, decorator, \<open>register_class_ref\<close> and
  \<open>lookup_class_ref\<close> calls.
\<close>

theorem ordinary_entry_never_overwritten:
  assumes "kind \<noteq> ''class_map''" and "bucket_of S kind name = Some c"
  shows "bucket_of (run acts S) kind name = Some c"
  using assms unfolding run_def
proof (induction acts arbitrary: S)
  case Nil
  then show ?case by simp
next
  case (Cons a acts)
  have "bucket_of (perform a S) kind name = Some c"
    using Cons.prems by (rule perform_keeps)
  with Cons.IH [OF Cons.prems(1)] show ?case by simp
qed

text \<open>The entry of \<open>(model, a)\<close> survives a second registration and a class-map write of the same name.\<close>

theorem ordinary_entry_never_overwritten_witness:
  "bucket_of (run [Register ''model'' ''a'' ex_A', RegisterClassRef ex_R (Some ''a''), Load ''model'' ''a'']
                (run [Register ''model'' ''a'' ex_A] LOOKUP_DICT)) ''model'' ''a'' = Some ex_A"
proof -
  have k: "''model'' \<noteq> ''class_map''" by simp
  have b: "bucket_of (run [Register ''model'' ''a'' ex_A] LOOKUP_DICT) ''model'' ''a'' = Some ex_A"
    by (simp add: run_def store_eqs LOOKUP_DICT_def)
  show ?thesis using ordinary_entry_never_overwritten [OF k b] .
qed

text \<open>
  C1 as stated fails in the \<open>class_map\<close> bucket: both the decorator's side-effect write
  and \<open>register_class_ref\<close> assign without a check, and replace the entry of a
  qualified name that is already there.
\<close>

theorem class_map_overwritten_counterexample:
  "bucket_of (run [Register ''model'' ''a'' ex_A] LOOKUP_DICT) ''class_map'' ''pkg.models.A'' = Some ex_A
   \<and> bucket_of (run [Register ''model'' ''a'' ex_A, Register ''trainer'' ''t'' ex_A'] LOOKUP_DICT)
        ''class_map'' ''pkg.models.A'' = Some ex_A'
   \<and> bucket_of (run [RegisterClassRef ex_A (Some ''x'')] LOOKUP_DICT) ''class_map'' ''x'' = Some ex_A
   \<and> bucket_of (run [RegisterClassRef ex_A (Some ''x''), RegisterClassRef ex_R (Some ''x'')] LOOKUP_DICT)
        ''class_map'' ''x'' = Some ex_R
   \<and> ex_A \<noteq> ex_A' \<and> ex_A \<noteq> ex_R"
  by (simp add: run_def store_eqs LOOKUP_DICT_def qualname_def ex_defs)

text \<open>
  C7. Applying the decorator of \<open>load(kind, name)\<close> when \<open>name\<close> is already in the
  bucket of \<open>kind\<close> raises \<open>LookupError\<close> (the duplicate-registration error) and leaves
  the store, hence that bucket's entry, as it was; the same name registered under two
  different kinds succeeds in both, and each lookup returns its own constructor;
  \<open>load("class_map", name)\<close> always fails its assertion (the reserved-kind error).
\<close>

theorem duplicate_and_reserved_registration:
  "(bucket_of S kind name = Some c \<longrightarrow>
      decorator (Decorator kind name) obj S = (Inl (LookupError (name @ '' already present'')), S))
   \<and> (kind \<noteq> ''class_map'' \<and> bucket_of S kind name = Some c \<longrightarrow>
        fst (register kind name obj S) = Inl (LookupError (name @ '' already present''))
        \<and> bucket_of (snd (register kind name obj S)) kind = bucket_of S kind)
   \<and> (k1 \<noteq> k2 \<and> k1 \<noteq> ''class_map'' \<and> k2 \<noteq> ''class_map''
        \<and> bucket_of S k1 name = None \<and> bucket_of S k2 name = None \<longrightarrow>
        fst (register k1 name c1 S) = Inr c1
        \<and> fst (register k2 name c2 (snd (register k1 name c1 S))) = Inr c2
        \<and> lookup (snd (register k2 name c2 (snd (register k1 name c1 S)))) k1 (Name name) = Inr c1
        \<and> lookup (snd (register k2 name c2 (snd (register k1 name c1 S)))) k2 (Name name) = Inr c2)
   \<and> load ''class_map'' name S =
        (Inl (AssertionError (''reserved keyword for kind '' @ dquote @ ''class_map'' @ dquote)), S)
   \<and> register ''class_map'' name obj S =
        (Inl (AssertionError (''reserved keyword for kind '' @ dquote @ ''class_map'' @ dquote)), S)"
proof -
  have dup: "bucket_of S kind name = Some c \<longrightarrow>
      decorator (Decorator kind name) obj S = (Inl (LookupError (name @ '' already present'')), S)"
    by simp
  have reg: "kind \<noteq> ''class_map'' \<and> bucket_of S kind name = Some c \<longrightarrow>
        fst (register kind name obj S) = Inl (LookupError (name @ '' already present''))
        \<and> bucket_of (snd (register kind name obj S)) kind = bucket_of S kind"
    by (simp add: register_eq bucket_of_upd)
  have two: "k1 \<noteq> k2 \<and> k1 \<noteq> ''class_map'' \<and> k2 \<noteq> ''class_map''
        \<and> bucket_of S k1 name = None \<and> bucket_of S k2 name = None \<longrightarrow>
        fst (register k1 name c1 S) = Inr c1
        \<and> fst (register k2 name c2 (snd (register k1 name c1 S))) = Inr c2
        \<and> lookup (snd (register k2 name c2 (snd (register k1 name c1 S)))) k1 (Name name) = Inr c1
        \<and> lookup (snd (register k2 name c2 (snd (register k1 name c1 S)))) k2 (Name name) = Inr c2"
    by (simp add: register_eq bucket_of_upd lookup_Name)
  have res: "load ''class_map'' name S =
        (Inl (AssertionError (''reserved keyword for kind '' @ dquote @ ''class_map'' @ dquote)), S)"
    "register ''class_map'' name obj S =
        (Inl (AssertionError (''reserved keyword for kind '' @ dquote @ ''class_map'' @ dquote)), S)"
    by (simp_all add: register_eq load_eq)
  from dup reg two res show ?thesis by blast
qed


text \<open>A second registration of \<open>(model, a)\<close>, the same name under \<open>trainer\<close>, and the reserved kind.\<close>

theorem duplicate_and_reserved_registration_witness:
  "decorator (Decorator ''model'' ''a'') ex_A' (snd (register ''model'' ''a'' ex_A LOOKUP_DICT))
     = (Inl (LookupError ''a already present''), snd (register ''model'' ''a'' ex_A LOOKUP_DICT))
   \<and> fst (register ''model'' ''a'' ex_A' (snd (register ''model'' ''a'' ex_A LOOKUP_DICT)))
       = Inl (LookupError ''a already present'')
   \<and> bucket_of (snd (register ''model'' ''a'' ex_A' (snd (register ''model'' ''a'' ex_A LOOKUP_DICT))))
        ''model'' ''a'' = Some ex_A
   \<and> lookup (snd (register ''trainer'' ''a'' ex_R (snd (register ''model'' ''a'' ex_A LOOKUP_DICT))))
        ''model'' (Name ''a'') = Inr ex_A
   \<and> lookup (snd (register ''trainer'' ''a'' ex_R (snd (register ''model'' ''a'' ex_A LOOKUP_DICT))))
        ''trainer'' (Name ''a'') = Inr ex_R
   \<and> fst (load ''class_map'' ''a'' LOOKUP_DICT) = Inl (AssertionError (''reserved keyword for kind '' @ dquote @ ''class_map'' @ dquote))"
proof -
  let ?S = "snd (register ''model'' ''a'' ex_A LOOKUP_DICT)"
  have b: "bucket_of ?S ''model'' ''a'' = Some ex_A"
    by (simp add: store_eqs LOOKUP_DICT_def)
  have e: "bucket_of LOOKUP_DICT ''model'' ''a'' = None" "bucket_of LOOKUP_DICT ''trainer'' ''a'' = None"
    by (simp_all add: store_eqs LOOKUP_DICT_def)
  have bk: "bucket_of (snd (register ''model'' ''a'' ex_A' ?S)) ''model'' = bucket_of ?S ''model''"
    using duplicate_and_reserved_registration [of ?S "''model''" "''a''" ex_A ex_A'] b by simp
  have l: "bucket_of (snd (register ''model'' ''a'' ex_A' ?S)) ''model'' ''a'' = Some ex_A"
    using bk b by simp
  show ?thesis
    using duplicate_and_reserved_registration
            [of ?S "''model''" "''a''" ex_A ex_A' "''model''" "''trainer''" ex_A ex_R]
          duplicate_and_reserved_registration
            [of LOOKUP_DICT "''model''" "''a''" ex_A ex_A' "''model''" "''trainer''" ex_A ex_R]
          b e l
    by (simp add: dquote_def)
qed

text \<open>
  C10. Calling \<open>load(kind, name)\<close> without applying the decorator creates the empty
  bucket of \<open>kind\<close> and the bucket of \<open>class_map\<close>: a lookup under \<open>kind\<close> that
  raised the nothing-registered \<open>KeyError\<close> before raises the \<open>KeyError\<close> of the absent
  name afterwards.
\<close>

theorem load_alone_creates_buckets:
  assumes "kind \<noteq> ''class_map''" and "S kind = None"
  shows "lookup S kind (Name x) = Inl (KeyError (VStr (nothing_registered kind)))
       \<and> fst (load kind name S) = Inr (Decorator kind name)
       \<and> snd (load kind name S) kind = Some Map.empty
       \<and> snd (load kind name S) ''class_map'' = Some (bucket_of S ''class_map'')
       \<and> lookup (snd (load kind name S)) kind (Name x) = Inl (KeyError (VStr x))
       \<and> (DAList.lookup m ''name'' = Some (VStr x) \<longrightarrow>
            lookup (snd (load kind name S)) kind (Mapping m) = Inl (KeyError (VStr x)))
       \<and> (x \<noteq> nothing_registered kind \<longrightarrow>
            lookup (snd (load kind name S)) kind (Name x)
              \<noteq> Inl (KeyError (VStr (nothing_registered kind))))"
proof -
  have b: "bucket_of S kind = Map.empty"
    using assms(2) by (simp add: bucket_of_def)
  have before: "lookup S kind (Name x) = Inl (KeyError (VStr (nothing_registered kind)))"
    using assms(2) by (simp add: lookup_Name)
  have st: "snd (load kind name S) kind = Some Map.empty"
    "snd (load kind name S) ''class_map'' = Some (bucket_of S ''class_map'')"
    "fst (load kind name S) = Inr (Decorator kind name)"
    using assms(1) b by (simp_all add: load_eq)
  have after: "lookup (snd (load kind name S)) kind (Name x) = Inl (KeyError (VStr x))"
    using st(1) by (simp add: lookup_Name)
  have afterm: "DAList.lookup m ''name'' = Some (VStr x) \<longrightarrow>
            lookup (snd (load kind name S)) kind (Mapping m) = Inl (KeyError (VStr x))"
    using st(1) by (simp add: lookup_Mapping bucket_getitem_def)
  from before st after afterm show ?thesis by simp
qed


text \<open>\<open>load("model", "dlrm")\<close> on the initial store.\<close>

theorem load_alone_creates_buckets_witness:
  "lookup LOOKUP_DICT ''model'' (Name ''dlrm'') = Inl (KeyError (VStr (''Nothing registered under '' @ dquote @ ''model'' @ dquote)))
   \<and> snd (load ''model'' ''dlrm'' LOOKUP_DICT) ''model'' = Some Map.empty
   \<and> snd (load ''model'' ''dlrm'' LOOKUP_DICT) ''class_map'' = Some Map.empty
   \<and> lookup (snd (load ''model'' ''dlrm'' LOOKUP_DICT)) ''model'' (Name ''dlrm'') = Inl (KeyError (VStr ''dlrm''))
   \<and> lookup (snd (load ''model'' ''dlrm'' LOOKUP_DICT)) ''model'' (Mapping ex_cfg) = Inl (KeyError (VStr ''dlrm''))
   \<and> lookup (snd (load ''model'' ''dlrm'' LOOKUP_DICT)) ''model'' (Name ''dlrm'')
       \<noteq> Inl (KeyError (VStr (nothing_registered ''model'')))"
proof -
  have k: "''model'' \<noteq> ''class_map''" by simp
  have n: "LOOKUP_DICT ''model'' = None" by (simp add: LOOKUP_DICT_def)
  have x: "''dlrm'' \<noteq> nothing_registered ''model''" by (simp add: nothing_registered_def)
  show ?thesis
    using load_alone_creates_buckets
            [where kind = "''model''" and S = LOOKUP_DICT and x = "''dlrm''" and name = "''dlrm''"
               and m = ex_cfg]
          k n x lookup_ex_cfg_name
    by (simp add: nothing_registered_def bucket_of_def LOOKUP_DICT_def)
qed

section \<open>Claims about resolution\<close>

text \<open>
  C6 (as amended). When the store has no bucket for \<open>kind\<close> (no call ever read
  \<open>LOOKUP_DICT[kind]\<close>), \<open>lookup\<close> raises the \<open>KeyError\<close> whose message is
  \<open>Nothing registered under "kind"\<close>; when the bucket exists and lacks the name, it
  raises the \<open>KeyError\<close> of the name; the two differ whenever the name is not that message
  text; and for a registered \<open>(kind, name)\<close> the lookup by name and the lookup by any
  mapping whose \<open>name\<close> field is that name return the same constructor.
\<close>

theorem lookup_errors_and_agreement:
  "(S kind = None \<longrightarrow>
      lookup S kind (Name name) = Inl (KeyError (VStr (nothing_registered kind))))
   \<and> (list_all (\<lambda>a. \<not> creates_bucket kind a) acts \<longrightarrow>
        lookup (run acts LOOKUP_DICT) kind (Name name)
          = Inl (KeyError (VStr (nothing_registered kind))))
   \<and> (S kind = Some b \<and> b name = None \<longrightarrow>
        lookup S kind (Name name) = Inl (KeyError (VStr name)))
   \<and> (S kind = None \<and> S' kind = Some b \<and> b name = None \<and> name \<noteq> nothing_registered kind \<longrightarrow>
        lookup S kind (Name name) \<noteq> lookup S' kind (Name name))
   \<and> (S kind = Some b \<and> b name = Some c \<longrightarrow>
        lookup S kind (Name name) = Inr c
        \<and> (DAList.lookup m ''name'' = Some (VStr name) \<longrightarrow> lookup S kind (Mapping m) = Inr c))"
proof -
  have hist: "list_all (\<lambda>a. \<not> creates_bucket kind a) acts \<longrightarrow>
        lookup (run acts LOOKUP_DICT) kind (Name name)
          = Inl (KeyError (VStr (nothing_registered kind)))"
  proof
    assume "list_all (\<lambda>a. \<not> creates_bucket kind a) acts"
    then have "run acts LOOKUP_DICT kind = None"
      by (simp add: run_bucket_None LOOKUP_DICT_def)
    then show "lookup (run acts LOOKUP_DICT) kind (Name name)
          = Inl (KeyError (VStr (nothing_registered kind)))"
      by (simp add: lookup_Name)
  qed
  have rest: "S kind = None \<longrightarrow>
      lookup S kind (Name name) = Inl (KeyError (VStr (nothing_registered kind)))"
    "S kind = Some b \<and> b name = None \<longrightarrow>
        lookup S kind (Name name) = Inl (KeyError (VStr name))"
    "S kind = None \<and> S' kind = Some b \<and> b name = None \<and> name \<noteq> nothing_registered kind \<longrightarrow>
        lookup S kind (Name name) \<noteq> lookup S' kind (Name name)"
    "S kind = Some b \<and> b name = Some c \<longrightarrow>
        lookup S kind (Name name) = Inr c
        \<and> (DAList.lookup m ''name'' = Some (VStr name) \<longrightarrow> lookup S kind (Mapping m) = Inr c)"
    by (auto simp: lookup_Name lookup_Mapping bucket_getitem_def)
  from hist rest show ?thesis by blast
qed


text \<open>The initial store, a store with \<open>(model, dlrm)\<close> registered, and a configuration naming it.\<close>

theorem lookup_errors_and_agreement_witness:
  "lookup LOOKUP_DICT ''model'' (Name ''dlrm'') = Inl (KeyError (VStr (nothing_registered ''model'')))
   \<and> lookup (run [Register ''trainer'' ''dlrm'' ex_A, LookupClassRef ''x''] LOOKUP_DICT) ''model''
        (Name ''dlrm'') = Inl (KeyError (VStr (nothing_registered ''model'')))
   \<and> lookup (snd (register ''model'' ''dlrm'' ex_A LOOKUP_DICT)) ''model'' (Name ''other'')
        = Inl (KeyError (VStr ''other''))
   \<and> lookup LOOKUP_DICT ''model'' (Name ''other'')
        \<noteq> lookup (snd (register ''model'' ''dlrm'' ex_A LOOKUP_DICT)) ''model'' (Name ''other'')
   \<and> lookup (snd (register ''model'' ''dlrm'' ex_A LOOKUP_DICT)) ''model'' (Name ''dlrm'') = Inr ex_A
   \<and> lookup (snd (register ''model'' ''dlrm'' ex_A LOOKUP_DICT)) ''model'' (Mapping ex_cfg) = Inr ex_A"
proof -
  let ?S = "snd (register ''model'' ''dlrm'' ex_A LOOKUP_DICT)"
  let ?b = "Map.empty(''dlrm'' \<mapsto> ex_A)"
  have e: "LOOKUP_DICT ''model'' = None" by (simp add: LOOKUP_DICT_def)
  have h: "list_all (\<lambda>a. \<not> creates_bucket ''model'' a)
             [Register ''trainer'' ''dlrm'' ex_A, LookupClassRef ''x'']"
    by (simp add: creates_bucket_def)
  have s: "?S ''model'' = Some ?b"
    by (simp add: store_eqs LOOKUP_DICT_def)
  have b: "?b ''other'' = None" "?b ''dlrm'' = Some ex_A" by simp_all
  have x: "''other'' \<noteq> nothing_registered ''model''" by (simp add: nothing_registered_def)
  show ?thesis
    using lookup_errors_and_agreement
            [where S = LOOKUP_DICT and kind = "''model''" and name = "''dlrm''"
               and acts = "[Register ''trainer'' ''dlrm'' ex_A, LookupClassRef ''x'']"]
          lookup_errors_and_agreement
            [where S = LOOKUP_DICT and S' = ?S and kind = "''model''" and name = "''other''"
               and b = ?b]
          lookup_errors_and_agreement
            [where S = ?S and kind = "''model''" and name = "''other''" and b = ?b]
          lookup_errors_and_agreement
            [where S = ?S and kind = "''model''" and name = "''dlrm''" and b = ?b and c = ex_A
               and m = ex_cfg]
          e h s b x lookup_ex_cfg_name
    by simp
qed


text \<open>
  C6 as stated fails for a kind whose bucket exists although nothing was registered under
  it: after \<open>load("model", "dlrm")\<close> with the decorator never applied, every bucket is
  empty and \<open>lookup("model", "dlrm")\<close> raises the absent-name \<open>KeyError\<close>.
\<close>

theorem empty_bucket_lookup_counterexample:
  "bucket_of (run [Load ''model'' ''dlrm''] LOOKUP_DICT) ''model'' = Map.empty
   \<and> bucket_of (run [Load ''model'' ''dlrm''] LOOKUP_DICT) ''class_map'' = Map.empty
   \<and> lookup (run [Load ''model'' ''dlrm''] LOOKUP_DICT) ''model'' (Name ''dlrm'')
       = Inl (KeyError (VStr ''dlrm''))
   \<and> lookup (run [Load ''model'' ''dlrm''] LOOKUP_DICT) ''model'' (Name ''dlrm'')
       \<noteq> Inl (KeyError (VStr (nothing_registered ''model'')))"
  by (simp add: run_def store_eqs LOOKUP_DICT_def lookup_Name nothing_registered_def)


section \<open>Claims about the identity capability\<close>

text \<open>
  C9. \<open>register_class_ref\<close> with the name omitted fails, writing nothing, on a class
  that does not derive from \<open>Registrable\<close> (the assertion) and on a callable that is
  not a class (\<open>issubclass\<close> raises); on a class that derives from \<open>Registrable\<close> it
  succeeds and \<open>lookup_class_ref(type_name())\<close> then returns that class;
  \<open>lookup_class_ref\<close> of an identity that is absent from the class map, in particular one
  that no call ever wrote, raises \<open>KeyError\<close> (the unknown-class error).
\<close>

theorem class_ref_round_trip:
  "(obj_sort C = PlainClass \<longrightarrow>
      register_class_ref C None S
        = (Inl (AssertionError ''Annotated class must be a subclass of Registrable''), S))
   \<and> (obj_sort C = NotAClass \<longrightarrow>
        register_class_ref C None S = (Inl (TypeError ''issubclass() arg 1 must be a class''), S))
   \<and> (obj_sort C = RegistrableClass \<longrightarrow>
        fst (register_class_ref C None S) = Inr C
        \<and> fst (lookup_class_ref (type_name C) (snd (register_class_ref C None S))) = Inr C)
   \<and> (bucket_of S ''class_map'' ident = None \<longrightarrow>
        fst (lookup_class_ref ident S) = Inl (KeyError (VStr (no_class_found ident))))
   \<and> (list_all (\<lambda>a. \<not> writes_class ident a) acts \<longrightarrow>
        fst (lookup_class_ref ident (run acts LOOKUP_DICT))
          = Inl (KeyError (VStr (no_class_found ident))))"
proof -
  have hist: "list_all (\<lambda>a. \<not> writes_class ident a) acts \<longrightarrow>
        fst (lookup_class_ref ident (run acts LOOKUP_DICT))
          = Inl (KeyError (VStr (no_class_found ident)))"
  proof
    assume a: "list_all (\<lambda>a. \<not> writes_class ident a) acts"
    have "bucket_of LOOKUP_DICT ''class_map'' ident = None"
      by (simp add: LOOKUP_DICT_def bucket_of_empty)
    then have "bucket_of (run acts LOOKUP_DICT) ''class_map'' ident = None"
      using a by (rule run_class_None)
    then show "fst (lookup_class_ref ident (run acts LOOKUP_DICT))
          = Inl (KeyError (VStr (no_class_found ident)))"
      by (simp add: lookup_class_ref_eq)
  qed
  have rest: "obj_sort C = PlainClass \<longrightarrow>
      register_class_ref C None S
        = (Inl (AssertionError ''Annotated class must be a subclass of Registrable''), S)"
    "obj_sort C = NotAClass \<longrightarrow>
        register_class_ref C None S = (Inl (TypeError ''issubclass() arg 1 must be a class''), S)"
    "obj_sort C = RegistrableClass \<longrightarrow>
        fst (register_class_ref C None S) = Inr C
        \<and> fst (lookup_class_ref (type_name C) (snd (register_class_ref C None S))) = Inr C"
    "bucket_of S ''class_map'' ident = None \<longrightarrow>
        fst (lookup_class_ref ident S) = Inl (KeyError (VStr (no_class_found ident)))"
    by (simp_all add: register_class_ref_eq lookup_class_ref_eq bucket_of_upd)
  from hist rest show ?thesis by blast
qed


text \<open>A plain class, a function, a \<open>Registrable\<close> class, and an identity that was never written.\<close>

theorem class_ref_round_trip_witness:
  "fst (register_class_ref ex_A None LOOKUP_DICT)
     = Inl (AssertionError ''Annotated class must be a subclass of Registrable'')
   \<and> fst (register_class_ref ex_F None LOOKUP_DICT) = Inl (TypeError ''issubclass() arg 1 must be a class'')
   \<and> fst (lookup_class_ref ''pkg.workers.R'' (snd (register_class_ref ex_R None LOOKUP_DICT))) = Inr ex_R
   \<and> fst (lookup_class_ref ''pkg.workers.R'' LOOKUP_DICT)
       = Inl (KeyError (VStr (no_class_found ''pkg.workers.R'')))
   \<and> fst (lookup_class_ref ''pkg.workers.R''
            (run [Register ''model'' ''a'' ex_A, RegisterClassRef ex_R (Some ''R'')] LOOKUP_DICT))
       = Inl (KeyError (VStr (no_class_found ''pkg.workers.R'')))"
proof -
  have s: "obj_sort ex_A = PlainClass" "obj_sort ex_F = NotAClass" "obj_sort ex_R = RegistrableClass"
    "type_name ex_R = ''pkg.workers.R''"
    by (simp_all add: ex_defs type_name_def)
  have e: "bucket_of LOOKUP_DICT ''class_map'' ''pkg.workers.R'' = None"
    by (simp add: LOOKUP_DICT_def bucket_of_empty)
  have h: "list_all (\<lambda>a. \<not> writes_class ''pkg.workers.R'' a)
             [Register ''model'' ''a'' ex_A, RegisterClassRef ex_R (Some ''R'')]"
    by (simp add: writes_class_def qualname_def ex_defs)
  show ?thesis
    using class_ref_round_trip [where C = ex_A and S = LOOKUP_DICT and ident = "''pkg.workers.R''"
              and acts = "[Register ''model'' ''a'' ex_A, RegisterClassRef ex_R (Some ''R'')]"]
          class_ref_round_trip [where C = ex_F and S = LOOKUP_DICT]
          class_ref_round_trip [where C = ex_R and S = LOOKUP_DICT]
          s e h
    by simp
qed

section \<open>Properties of \<open>instantiate\<close> and \<open>construct\<close>\<close>

lemma update_fresh_append:
  "k \<notin> fst ` set xs \<Longrightarrow> AList.update k v xs = xs @ [(k, v)]"
  by (induction xs) auto

lemma fold_update_map_of:
  "distinct (map fst xs) \<Longrightarrow>
   DAList.lookup (fold (\<lambda>(k, v). DAList.update k v) xs d) key =
     (case map_of xs key of Some v \<Rightarrow> Some v | None \<Rightarrow> DAList.lookup d key)"
proof (induction xs arbitrary: d)
  case Nil
  then show ?case by simp
next
  case (Cons p xs)
  obtain k v where p: "p = (k, v)" by (cases p)
  from Cons.prems p have nk: "map_of xs k = None"
    by (simp add: map_of_eq_None_iff)
  from Cons.prems have d: "distinct (map fst xs)" by simp
  show ?case
    using Cons.IH [OF d, of "DAList.update k v d"] nk
    by (auto simp: p DAList.lookup_update split: option.splits)
qed

lemma lookup_dict_merge:
  "DAList.lookup (dict_merge config kwargs) key =
     (case DAList.lookup kwargs key of Some v \<Rightarrow> Some v | None \<Rightarrow> DAList.lookup config key)"
proof -
  have "distinct (map fst (DAList.impl_of kwargs))" by simp
  then show ?thesis
    unfolding dict_merge_def
    by (simp add: fold_update_map_of) (simp add: DAList.lookup.rep_eq)
qed

lemma alist_delete_filter:
  "AList.delete k xs = filter (\<lambda>p. fst p \<noteq> k) xs"
  by (induction xs) auto

lemma impl_of_delete_filter:
  "DAList.impl_of (DAList.delete k d) = filter (\<lambda>p. fst p \<noteq> k) (DAList.impl_of d)"
  by (simp only: DAList.delete.rep_eq alist_delete_filter)

lemma keys_of_lookup:
  "k \<in> fst ` set (DAList.impl_of d) \<Longrightarrow> \<exists>v. DAList.lookup d k = Some v"
proof -
  assume "k \<in> fst ` set (DAList.impl_of d)"
  then have "map_of (DAList.impl_of d) k \<noteq> None"
    by (simp only: map_of_eq_None_iff not_not)
  then show ?thesis
    by (simp only: DAList.lookup.rep_eq not_None_eq)
qed

lemma superfluous_loop_result:
  assumes "distinct keys"
    and "set keys \<subseteq> fst ` set (DAList.impl_of (heap s m))"
    and "set keys \<inter> fst ` set (DAList.impl_of missing) = {}"
  shows "\<exists>missing'.
      superfluous_loop c unused m keys missing s =
        (Inr missing',
         s\<lparr>heap := (heap s)(m := DAList.filter (\<lambda>p. declares c (fst p) \<or> fst p \<notin> set keys) (heap s m))\<rparr>)
      \<and> DAList.impl_of missing' =
          DAList.impl_of missing @
          map (\<lambda>k. (k, the (DAList.lookup (heap s m) k)))
            (filter (\<lambda>k. \<not> declares c k \<and> k \<notin> set unused) keys)"
  using assms
proof (induction keys arbitrary: missing s)
  case Nil
  have "DAList.filter (\<lambda>p. True) (heap s m) = heap s m"
    by (simp add: DAList.alist_eq_iff DAList.filter.rep_eq)
  then show ?case by simp
next
  case (Cons key keys)
  have dk: "distinct keys" and nk: "key \<notin> set keys"
    using Cons.prems(1) by simp_all
  show ?case
  proof (cases "declares c key")
    case True
    have sub: "set keys \<subseteq> fst ` set (DAList.impl_of (heap s m))"
      using Cons.prems(2) by simp
    have dis: "set keys \<inter> fst ` set (DAList.impl_of missing) = {}"
      using Cons.prems(3) by auto
    have f: "DAList.filter (\<lambda>p. declares c (fst p) \<or> fst p \<notin> set (key # keys)) (heap s m)
           = DAList.filter (\<lambda>p. declares c (fst p) \<or> fst p \<notin> set keys) (heap s m)"
      using True by (auto simp: DAList.alist_eq_iff DAList.filter.rep_eq intro: filter_cong)
    from Cons.IH [OF dk sub dis] True f show ?thesis by simp
  next
    case False
    obtain v where v: "DAList.lookup (heap s m) key = Some v"
      using Cons.prems(2) keys_of_lookup [of key "heap s m"] by auto
    let ?s' = "s\<lparr>heap := (heap s)(m := DAList.delete key (heap s m))\<rparr>"
    let ?missing = "if key \<notin> set unused then DAList.update key v missing else missing"
    have sub: "set keys \<subseteq> fst ` set (DAList.impl_of (heap ?s' m))"
    proof
      fix x assume x: "x \<in> set keys"
      with Cons.prems(2) obtain p where "p \<in> set (DAList.impl_of (heap s m))" "fst p = x"
        by auto
      moreover from x nk have "x \<noteq> key" by auto
      ultimately have "p \<in> set (filter (\<lambda>p. fst p \<noteq> key) (DAList.impl_of (heap s m)))" "fst p = x"
        by simp_all
      then show "x \<in> fst ` set (DAList.impl_of (heap ?s' m))"
        by (simp add: impl_of_delete_filter) force
    qed
    have km: "key \<notin> fst ` set (DAList.impl_of missing)"
      using Cons.prems(3) by auto
    have dis: "set keys \<inter> fst ` set (DAList.impl_of ?missing) = {}"
      using Cons.prems(3) nk by (auto simp: DAList.update.rep_eq dom_update)
    have f: "DAList.filter (\<lambda>p. declares c (fst p) \<or> fst p \<notin> set keys) (DAList.delete key (heap s m))
           = DAList.filter (\<lambda>p. declares c (fst p) \<or> fst p \<notin> set (key # keys)) (heap s m)"
      using False
      by (auto simp: DAList.alist_eq_iff DAList.filter.rep_eq impl_of_delete_filter intro: filter_cong)
    have l: "map (\<lambda>k. (k, the (DAList.lookup (heap ?s' m) k)))
               (filter (\<lambda>k. \<not> declares c k \<and> k \<notin> set unused) keys)
           = map (\<lambda>k. (k, the (DAList.lookup (heap s m) k)))
               (filter (\<lambda>k. \<not> declares c k \<and> k \<notin> set unused) keys)"
      using nk by (intro map_cong) auto
    have m: "DAList.impl_of ?missing =
               DAList.impl_of missing @ (if key \<notin> set unused then [(key, v)] else [])"
      using km by (simp add: DAList.update.rep_eq update_fresh_append)
    from Cons.IH [OF dk sub dis] obtain missing' where
      r: "superfluous_loop c unused m keys ?missing ?s' =
            (Inr missing',
             ?s'\<lparr>heap := (heap ?s')(m := DAList.filter (\<lambda>p. declares c (fst p) \<or> fst p \<notin> set keys) (heap ?s' m))\<rparr>)"
      and i: "DAList.impl_of missing' =
          DAList.impl_of ?missing @
          map (\<lambda>k. (k, the (DAList.lookup (heap ?s' m) k)))
            (filter (\<lambda>k. \<not> declares c k \<and> k \<notin> set unused) keys)"
      by blast
    have r': "superfluous_loop c unused m (key # keys) missing s =
            (Inr missing',
             s\<lparr>heap := (heap s)(m := DAList.filter (\<lambda>p. declares c (fst p) \<or> fst p \<notin> set (key # keys)) (heap s m))\<rparr>)"
      using False v r f by simp
    have i': "DAList.impl_of missing' =
          DAList.impl_of missing @
          map (\<lambda>k. (k, the (DAList.lookup (heap s m) k)))
            (filter (\<lambda>k. \<not> declares c k \<and> k \<notin> set unused) (key # keys))"
      using i l m False v by simp
    from r' i' show ?thesis by blast
  qed
qed

lemma map_the_lookup_filter:
  assumes "distinct (map fst xs)" and "set ys \<subseteq> set xs"
  shows "map (\<lambda>k. (k, the (map_of xs k))) (filter P (map fst ys)) = filter (\<lambda>p. P (fst p)) ys"
  using assms(2)
proof (induction ys)
  case Nil
  then show ?case by simp
next
  case (Cons p ys)
  obtain k v where p: "p = (k, v)" by (cases p)
  with Cons.prems have "(k, v) \<in> set xs" by simp
  with assms(1) have "map_of xs k = Some v" by simp
  with Cons p show ?case by simp
qed

lemma instantiate_unsupported:
  assumes "unsupported_param c = Some (n, k)"
  shows "instantiate c config unused kwargs s =
           (Inl (ValueError (''Unsupported kind for param '' @ n @ '': '' @ kind_str k)),
            s\<lparr>heap := (heap s)(nxt s := dict_merge (heap s config) kwargs), nxt := Suc (nxt s)\<rparr>)"
  using assms by (simp add: instantiate_def new_dict_def)

lemma instantiate_var_keyword:
  assumes "unsupported_param c = None" and "has_var_keyword c"
  shows "instantiate c config unused kwargs s =
           (Inr (Invoke c (dict_merge (heap s config) kwargs)),
            s\<lparr>heap := (heap s)(nxt s := dict_merge (heap s config) kwargs), nxt := Suc (nxt s)\<rparr>)"
  using assms by (simp add: instantiate_def new_dict_def)

lemma instantiate_filtered:
  assumes "unsupported_param c = None" and "\<not> has_var_keyword c"
    and m: "merged = dict_merge (heap s config) kwargs"
  shows "instantiate c config unused kwargs s =
           (Inr (Invoke c (recognized c merged)),
            s\<lparr>heap := (heap s)(nxt s := recognized c merged), nxt := Suc (nxt s),
              stderr := stderr s @
                (if DAList.impl_of (superfluous c unused merged) = [] then []
                 else [WARNING c (superfluous c unused merged)])\<rparr>)"
proof -
  let ?s1 = "s\<lparr>heap := (heap s)(nxt s := merged), nxt := Suc (nxt s)\<rparr>"
  let ?keys = "dict_keys merged"
  have h: "heap ?s1 (nxt s) = merged" by simp
  have d: "distinct ?keys" by (simp add: dict_keys_def)
  have sub: "set ?keys \<subseteq> fst ` set (DAList.impl_of (heap ?s1 (nxt s)))"
    by (simp add: dict_keys_def)
  have dis: "set ?keys \<inter> fst ` set (DAList.impl_of (DAList.empty :: pydict)) = {}"
    by (simp add: DAList.empty.rep_eq)
  from superfluous_loop_result [OF d sub dis, of c unused]
  obtain missing' where
    r: "superfluous_loop c unused (nxt s) ?keys DAList.empty ?s1 =
          (Inr missing',
           ?s1\<lparr>heap := (heap ?s1)(nxt s :=
                  DAList.filter (\<lambda>p. declares c (fst p) \<or> fst p \<notin> set ?keys) (heap ?s1 (nxt s)))\<rparr>)"
    and i: "DAList.impl_of missing' =
              DAList.impl_of (DAList.empty :: pydict) @
              map (\<lambda>k. (k, the (DAList.lookup (heap ?s1 (nxt s)) k)))
                (filter (\<lambda>k. \<not> declares c k \<and> k \<notin> set unused) ?keys)"
    by blast
  have k: "DAList.filter (\<lambda>p. declares c (fst p) \<or> fst p \<notin> set ?keys) merged = recognized c merged"
    unfolding recognized_def
    by (auto simp: DAList.alist_eq_iff DAList.filter.rep_eq dict_keys_def intro!: filter_cong)
  have "map (\<lambda>k. (k, the (map_of (DAList.impl_of merged) k)))
          (filter (\<lambda>k. \<not> declares c k \<and> k \<notin> set unused) (map fst (DAList.impl_of merged)))
        = filter (\<lambda>p. \<not> declares c (fst p) \<and> fst p \<notin> set unused) (DAList.impl_of merged)"
    by (rule map_the_lookup_filter) simp_all
  then have "DAList.impl_of missing' = DAList.impl_of (superfluous c unused merged)"
    using i
    by (simp add: superfluous_def DAList.filter.rep_eq DAList.empty.rep_eq DAList.lookup.rep_eq
          dict_keys_def)
  then have ms: "missing' = superfluous c unused merged"
    by (simp only: DAList.alist_eq_iff)
  have r': "superfluous_loop c unused (nxt s) ?keys DAList.empty ?s1 =
          (Inr (superfluous c unused merged),
           ?s1\<lparr>heap := (heap ?s1)(nxt s := recognized c merged)\<rparr>)"
    using r k ms by simp
  show ?thesis
    using assms(1,2) r'
    by (simp add: instantiate_def new_dict_def m [symmetric])
qed

lemma map_of_filter_fst:
  "map_of (filter (\<lambda>p. Q (fst p)) xs) k = (if Q k then map_of xs k else None)"
  by (induction xs) auto

lemma lookup_filter_fst:
  "DAList.lookup (DAList.filter (\<lambda>p. Q (fst p)) d) k = (if Q k then DAList.lookup d k else None)"
  by (simp only: DAList.lookup.rep_eq DAList.filter.rep_eq map_of_filter_fst)

lemma lookup_recognized:
  "DAList.lookup (recognized c merged) key = (if declares c key then DAList.lookup merged key else None)"
  unfolding recognized_def by (rule lookup_filter_fst)

lemma lookup_superfluous:
  "DAList.lookup (superfluous c unused merged) key =
     (if \<not> declares c key \<and> key \<notin> set unused then DAList.lookup merged key else None)"
  unfolding superfluous_def by (rule lookup_filter_fst)

lemma unsupported_param_Some:
  assumes "unsupported_param c = Some (n, k)"
  shows "(n, k) \<in> set (parameters c) \<and> (k = POSITIONAL_ONLY \<or> k = VAR_POSITIONAL)"
  using assms unfolding unsupported_param_def
  by (auto simp: find_Some_iff in_set_conv_nth)

lemma unsupported_param_None:
  "unsupported_param c = None \<longleftrightarrow>
     (\<forall>p \<in> set (parameters c). snd p \<noteq> POSITIONAL_ONLY \<and> snd p \<noteq> VAR_POSITIONAL)"
  unfolding unsupported_param_def by (auto simp: find_None_iff)

lemma instantiate_frame:
  assumes "a \<noteq> nxt s"
  shows "heap (snd (instantiate c config unused kwargs s)) a = heap s a"
proof (cases "unsupported_param c")
  case (Some p)
  then show ?thesis
    using assms by (cases p) (simp add: instantiate_unsupported)
next
  case None
  then show ?thesis
    using assms
    by (cases "has_var_keyword c")
       (simp_all add: instantiate_var_keyword instantiate_filtered [OF _ _ refl])
qed

lemma construct_frame:
  assumes "a < nxt s"
  shows "heap (snd (construct S kind config unused kwargs s)) a = heap s a"
proof (cases config)
  case (Str n)
  let ?s1 = "snd (new_dict (DAList.update ''name'' (VStr n) DAList.empty) s)"
  have n: "nxt ?s1 = Suc (nxt s)" and h: "heap ?s1 a = heap s a"
    using assms by (simp_all add: new_dict_def)
  have "heap (snd (instantiate c (nxt s) (unused @ [''name'']) kwargs ?s1)) a = heap ?s1 a" for c
    using assms n by (intro instantiate_frame) simp
  with h Str show ?thesis
    by (simp add: construct_def new_dict_def split: sum.splits)
next
  case (Dict cfg)
  have "heap (snd (instantiate c cfg (unused @ [''name'']) kwargs s)) a = heap s a" for c
    using assms by (intro instantiate_frame) simp
  with Dict show ?thesis
    by (simp add: construct_def split: sum.splits)
qed

lemma ex_A_kinds: "unsupported_param ex_A = None" "\<not> has_var_keyword ex_A"
  by (simp_all add: unsupported_param_def has_var_keyword_def ex_A_def)

lemma ex_R_kinds: "unsupported_param ex_R = None" "has_var_keyword ex_R"
  by (simp_all add: unsupported_param_def has_var_keyword_def ex_R_def)

lemma ex_state_simps: "heap ex_state 0 = ex_cfg" "heap ex_state (Suc 0) = ex_ab" "nxt ex_state = 2"
  "stderr ex_state = []"
  by (simp_all add: ex_state_def)

lemma ex_store_simps:
  "ex_store ''model'' = Some [''dlrm'' \<mapsto> ex_A]" "ex_store ''worker'' = Some [''r'' \<mapsto> ex_R]"
  by (simp_all add: ex_store_def run_def store_eqs LOOKUP_DICT_def)

lemma lookup_Mapping_Inr:
  assumes "lookup S kind (Mapping d) = Inr c"
  shows "\<exists>v. DAList.lookup d ''name'' = Some v"
  using assms by (cases "DAList.lookup d ''name''") (simp_all add: lookup_def)

lemma instantiate_Invoke:
  assumes "fst (instantiate c' config unused kwargs s) = Inr (Invoke c args)"
  shows "c' = c \<and> unsupported_param c = None
       \<and> (has_var_keyword c \<longrightarrow> args = dict_merge (heap s config) kwargs)
       \<and> (\<not> has_var_keyword c \<longrightarrow> args = recognized c (dict_merge (heap s config) kwargs))"
proof (cases "unsupported_param c'")
  case (Some p)
  then show ?thesis
    using assms by (cases p) (simp add: instantiate_unsupported)
next
  case None
  then show ?thesis
    using assms
    by (cases "has_var_keyword c'")
       (auto simp: instantiate_var_keyword instantiate_filtered [OF _ _ refl])
qed

lemma construct_Invoke:
  assumes "fst (construct S kind config unused kwargs s) = Inr (Invoke c args)"
  shows "\<exists>d. lookup S kind (Mapping d) = Inr c
           \<and> d = (case config of
                    Str n \<Rightarrow> DAList.update ''name'' (VStr n) DAList.empty
                  | Dict a \<Rightarrow> heap s a)
           \<and> unsupported_param c = None
           \<and> (has_var_keyword c \<longrightarrow> args = dict_merge d kwargs)
           \<and> (\<not> has_var_keyword c \<longrightarrow> args = recognized c (dict_merge d kwargs))"
proof (cases config)
  case (Str n)
  let ?d = "DAList.update ''name'' (VStr n) DAList.empty"
  let ?s1 = "snd (new_dict ?d s)"
  have h: "heap ?s1 (nxt s) = ?d" by (simp add: new_dict_def)
  from assms Str obtain c' where
    l: "lookup S kind (Mapping ?d) = Inr c'"
    and i: "fst (instantiate c' (nxt s) (unused @ [''name'']) kwargs ?s1) = Inr (Invoke c args)"
    by (auto simp: construct_def new_dict_def split: sum.splits if_splits)
  from instantiate_Invoke [OF i] l h Str show ?thesis by simp
next
  case (Dict a)
  from assms Dict obtain c' where
    l: "lookup S kind (Mapping (heap s a)) = Inr c'"
    and i: "fst (instantiate c' a (unused @ [''name'']) kwargs s) = Inr (Invoke c args)"
    by (auto simp: construct_def split: sum.splits if_splits)
  from instantiate_Invoke [OF i] l Dict show ?thesis by simp
qed

section \<open>Claims about instantiation\<close>

text \<open>
  C3. The merged mapping of \<open>instantiate\<close> is \<open>config\<close> right-overridden by the
  keyword overrides: a key that the overrides lack keeps what \<open>config\<close> has for it (also
  nothing), a key of the overrides has the override's value, also when \<open>config\<close> has the
  key; and every argument that reaches the constructor has the value of this merge.
\<close>

theorem instantiate_merge_right_biased:
  "(DAList.lookup kwargs key = None \<longrightarrow>
      DAList.lookup (dict_merge config kwargs) key = DAList.lookup config key)
   \<and> (DAList.lookup kwargs key = Some v \<longrightarrow> DAList.lookup (dict_merge config kwargs) key = Some v)
   \<and> (unsupported_param c = None \<and> (has_var_keyword c \<or> declares c key) \<longrightarrow>
        (\<exists>args. fst (instantiate c cfg unused_keys kwargs s) = Inr (Invoke c args)
           \<and> DAList.lookup args key =
               (case DAList.lookup kwargs key of
                  Some v \<Rightarrow> Some v
                | None \<Rightarrow> DAList.lookup (heap s cfg) key)))"
proof -
  have a: "DAList.lookup kwargs key = None \<longrightarrow>
      DAList.lookup (dict_merge config kwargs) key = DAList.lookup config key"
    and b: "DAList.lookup kwargs key = Some v \<longrightarrow> DAList.lookup (dict_merge config kwargs) key = Some v"
    by (simp_all add: lookup_dict_merge)
  have c: "unsupported_param c = None \<and> (has_var_keyword c \<or> declares c key) \<longrightarrow>
        (\<exists>args. fst (instantiate c cfg unused_keys kwargs s) = Inr (Invoke c args)
           \<and> DAList.lookup args key =
               (case DAList.lookup kwargs key of
                  Some v \<Rightarrow> Some v
                | None \<Rightarrow> DAList.lookup (heap s cfg) key))"
  proof (cases "has_var_keyword c")
    case True
    then show ?thesis
      by (simp add: instantiate_var_keyword lookup_dict_merge)
  next
    case False
    then show ?thesis
      by (simp add: instantiate_filtered [OF _ _ refl] lookup_recognized lookup_dict_merge)
  qed
  from a b c show ?thesis by blast
qed

text \<open>\<open>instantiate(ctor, {"a": 1, "b": 2}, (), b=99)\<close> for a constructor with parameters \<open>(a, b)\<close>.\<close>

theorem instantiate_merge_right_biased_witness:
  "DAList.lookup (dict_merge ex_ab ex_kw) ''a'' = Some (VInt 1)
   \<and> DAList.lookup (dict_merge ex_ab ex_kw) ''b'' = Some (VInt 99)
   \<and> (\<exists>args. fst (instantiate ex_A 1 [] ex_kw ex_state) = Inr (Invoke ex_A args)
         \<and> DAList.lookup args ''a'' = Some (VInt 1))
   \<and> (\<exists>args. fst (instantiate ex_A 1 [] ex_kw ex_state) = Inr (Invoke ex_A args)
         \<and> DAList.lookup args ''b'' = Some (VInt 99))"
proof -
  have l: "DAList.lookup ex_kw ''a'' = None" "DAList.lookup ex_kw ''b'' = Some (VInt 99)"
    "DAList.lookup ex_ab ''a'' = Some (VInt 1)"
    by (simp_all add: ex_kw_def ex_ab_def)
  have d: "declares ex_A ''a''" "declares ex_A ''b''"
    by (simp_all add: declares_def ex_A_def)
  show ?thesis
    using instantiate_merge_right_biased
            [where kwargs = ex_kw and key = "''a''" and config = ex_ab and c = ex_A and cfg = 1
               and unused_keys = "[]" and s = ex_state]
          instantiate_merge_right_biased
            [where kwargs = ex_kw and key = "''b''" and config = ex_ab and c = ex_A and cfg = 1
               and unused_keys = "[]" and s = ex_state and v = "VInt 99"]
          l d ex_A_kinds ex_state_simps
    by simp
qed

text \<open>
  C4. For a constructor without a variadic-keyword parameter, \<open>instantiate\<close> fails only
  on the constructor's parameter kinds, never on the keys; when it does not fail it calls
  the constructor with exactly the merged entries whose key is a declared parameter, every
  other key being removed whether or not it is in \<open>unused_keys\<close>, and it appends to
  \<open>stderr\<close> one warning that holds exactly the removed entries whose key is not in
  \<open>unused_keys\<close>, or nothing when there is none.
\<close>

theorem instantiate_filters_and_warns:
  assumes "\<not> has_var_keyword c" and "merged = dict_merge (heap s config) kwargs"
  shows "(unsupported_param c = None \<longrightarrow>
            instantiate c config unused_keys kwargs s =
              (Inr (Invoke c (recognized c merged)),
               s\<lparr>heap := (heap s)(nxt s := recognized c merged), nxt := Suc (nxt s),
                 stderr := stderr s @
                   (if DAList.impl_of (superfluous c unused_keys merged) = [] then []
                    else [WARNING c (superfluous c unused_keys merged)])\<rparr>))
       \<and> (unsupported_param c \<noteq> None \<longrightarrow>
            (\<exists>msg. fst (instantiate c config unused_keys kwargs s) = Inl (ValueError msg))
            \<and> stderr (snd (instantiate c config unused_keys kwargs s)) = stderr s)
       \<and> DAList.lookup (recognized c merged) key
            = (if declares c key then DAList.lookup merged key else None)
       \<and> DAList.lookup (superfluous c unused_keys merged) key
            = (if \<not> declares c key \<and> key \<notin> set unused_keys then DAList.lookup merged key else None)"
proof -
  have ok: "unsupported_param c = None \<longrightarrow>
            instantiate c config unused_keys kwargs s =
              (Inr (Invoke c (recognized c merged)),
               s\<lparr>heap := (heap s)(nxt s := recognized c merged), nxt := Suc (nxt s),
                 stderr := stderr s @
                   (if DAList.impl_of (superfluous c unused_keys merged) = [] then []
                    else [WARNING c (superfluous c unused_keys merged)])\<rparr>)"
    using instantiate_filtered [OF _ assms] by blast
  have bad: "unsupported_param c \<noteq> None \<longrightarrow>
            (\<exists>msg. fst (instantiate c config unused_keys kwargs s) = Inl (ValueError msg))
            \<and> stderr (snd (instantiate c config unused_keys kwargs s)) = stderr s"
  proof
    assume "unsupported_param c \<noteq> None"
    then obtain n k where u: "unsupported_param c = Some (n, k)"
      by (cases "unsupported_param c") auto
    show "(\<exists>msg. fst (instantiate c config unused_keys kwargs s) = Inl (ValueError msg))
            \<and> stderr (snd (instantiate c config unused_keys kwargs s)) = stderr s"
      by (simp add: instantiate_unsupported [OF u])
  qed
  from ok bad lookup_recognized [of c merged key] lookup_superfluous [of c unused_keys merged key]
  show ?thesis by blast
qed

text \<open>
  The configuration \<open>{"name": "dlrm", "a": 1, "c": 3}\<close> with \<open>b=99\<close> for a constructor
  with parameters \<open>(a, b)\<close>, with no unused keys, with \<open>name\<close>, and with \<open>name\<close> and \<open>c\<close>.
\<close>

theorem instantiate_filters_and_warns_witness:
  "fst (instantiate ex_A 0 [] ex_kw ex_state)
     = Inr (Invoke ex_A (recognized ex_A (dict_merge ex_cfg ex_kw)))
   \<and> DAList.impl_of (recognized ex_A (dict_merge ex_cfg ex_kw)) = [(''a'', VInt 1), (''b'', VInt 99)]
   \<and> stderr (snd (instantiate ex_A 0 [] ex_kw ex_state))
       = [WARNING ex_A (superfluous ex_A [] (dict_merge ex_cfg ex_kw))]
   \<and> DAList.impl_of (superfluous ex_A [] (dict_merge ex_cfg ex_kw))
       = [(''name'', VStr ''dlrm''), (''c'', VInt 3)]
   \<and> fst (instantiate ex_A 0 [''name'', ''c''] ex_kw ex_state)
       = Inr (Invoke ex_A (recognized ex_A (dict_merge ex_cfg ex_kw)))
   \<and> stderr (snd (instantiate ex_A 0 [''name'', ''c''] ex_kw ex_state)) = []
   \<and> stderr (snd (instantiate ex_A 0 [''name''] ex_kw ex_state))
       = [WARNING ex_A (superfluous ex_A [''name''] (dict_merge ex_cfg ex_kw))]
   \<and> DAList.impl_of (superfluous ex_A [''name''] (dict_merge ex_cfg ex_kw)) = [(''c'', VInt 3)]"
proof -
  have m: "dict_merge ex_cfg ex_kw = dict_merge (heap ex_state 0) ex_kw"
    by (simp add: ex_state_simps)
  have i: "DAList.impl_of (dict_merge ex_cfg ex_kw)
             = [(''name'', VStr ''dlrm''), (''a'', VInt 1), (''c'', VInt 3), (''b'', VInt 99)]"
    by (simp add: dict_merge_def ex_cfg_def ex_kw_def DAList.update.rep_eq DAList.empty.rep_eq)
  have r: "DAList.impl_of (recognized ex_A (dict_merge ex_cfg ex_kw)) = [(''a'', VInt 1), (''b'', VInt 99)]"
    by (simp add: recognized_def DAList.filter.rep_eq i declares_def ex_A_def)
  have s: "DAList.impl_of (superfluous ex_A [] (dict_merge ex_cfg ex_kw))
             = [(''name'', VStr ''dlrm''), (''c'', VInt 3)]"
    "DAList.impl_of (superfluous ex_A [''name''] (dict_merge ex_cfg ex_kw)) = [(''c'', VInt 3)]"
    "DAList.impl_of (superfluous ex_A [''name'', ''c''] (dict_merge ex_cfg ex_kw)) = []"
    by (simp_all add: superfluous_def DAList.filter.rep_eq i declares_def ex_A_def)
  show ?thesis
    using instantiate_filters_and_warns [OF ex_A_kinds(2) m, of "[]"]
          instantiate_filters_and_warns [OF ex_A_kinds(2) m, of "[''name'']"]
          instantiate_filters_and_warns [OF ex_A_kinds(2) m, of "[''name'', ''c'']"]
          ex_A_kinds(1) r s
    by (simp add: ex_state_simps)
qed

text \<open>
  C5. A constructor that declares a positional-only or a variadic-positional parameter makes
  \<open>instantiate\<close> raise \<open>ValueError\<close> (the unsupported-parameter-kind error), naming
  such a parameter, whatever the configuration, the unused keys and the overrides are; the
  result is the error, so the constructor is not invoked, and nothing is written to
  \<open>stderr\<close>.
\<close>

theorem instantiate_rejects_unsupported_kinds:
  assumes "(name, kind) \<in> set (parameters c)" and "kind = POSITIONAL_ONLY \<or> kind = VAR_POSITIONAL"
  shows "\<exists>n k. (n, k) \<in> set (parameters c) \<and> (k = POSITIONAL_ONLY \<or> k = VAR_POSITIONAL)
           \<and> fst (instantiate c config unused_keys kwargs s)
               = Inl (ValueError (''Unsupported kind for param '' @ n @ '': '' @ kind_str k))
           \<and> stderr (snd (instantiate c config unused_keys kwargs s)) = stderr s"
proof -
  have "unsupported_param c \<noteq> None"
  proof
    assume "unsupported_param c = None"
    then have "\<forall>p \<in> set (parameters c). snd p \<noteq> POSITIONAL_ONLY \<and> snd p \<noteq> VAR_POSITIONAL"
      by (simp only: unsupported_param_None)
    then have "snd (name, kind) \<noteq> POSITIONAL_ONLY \<and> snd (name, kind) \<noteq> VAR_POSITIONAL"
      using assms(1) by (rule bspec)
    with assms(2) show False by simp
  qed
  then obtain n k where u: "unsupported_param c = Some (n, k)"
    by (cases "unsupported_param c") auto
  from unsupported_param_Some [OF u] instantiate_unsupported [OF u, of config unused_keys kwargs s]
  show ?thesis by auto
qed

text \<open>A constructor with signature \<open>(x, /, a)\<close>.\<close>

theorem instantiate_rejects_unsupported_kinds_witness:
  "fst (instantiate ex_P 0 [] ex_kw ex_state)
     = Inl (ValueError ''Unsupported kind for param x: POSITIONAL_ONLY'')
   \<and> stderr (snd (instantiate ex_P 0 [] ex_kw ex_state)) = []"
proof -
  have p: "(''x'', POSITIONAL_ONLY) \<in> set (parameters ex_P)" by (simp add: ex_P_def)
  have k: "POSITIONAL_ONLY = POSITIONAL_ONLY \<or> POSITIONAL_ONLY = VAR_POSITIONAL" by simp
  from instantiate_rejects_unsupported_kinds [OF p k, of 0 "[]" ex_kw ex_state]
  obtain n k where
    m: "(n, k) \<in> set (parameters ex_P)" "k = POSITIONAL_ONLY \<or> k = VAR_POSITIONAL"
    and r: "fst (instantiate ex_P 0 [] ex_kw ex_state)
               = Inl (ValueError (''Unsupported kind for param '' @ n @ '': '' @ kind_str k))"
           "stderr (snd (instantiate ex_P 0 [] ex_kw ex_state)) = stderr ex_state"
    by blast
  from m have "n = ''x''" "k = POSITIONAL_ONLY" by (auto simp: ex_P_def)
  with r show ?thesis by (simp add: kind_str_def ex_state_simps)
qed

text \<open>
  C8. \<open>instantiate\<close> and \<open>construct\<close> leave every dict object that exists when they
  are called as it is, the caller's configuration among them: the merge allocates a new
  object, and the removal of keys works on that object.
\<close>

theorem caller_config_not_mutated:
  assumes "a < nxt s"
  shows "heap (snd (instantiate c config unused_keys kwargs s)) a = heap s a
       \<and> heap (snd (construct S kind cfg unused_keys kwargs s)) a = heap s a"
proof -
  from assms have "a \<noteq> nxt s" by simp
  then have "heap (snd (instantiate c config unused_keys kwargs s)) a = heap s a"
    by (rule instantiate_frame)
  moreover have "heap (snd (construct S kind cfg unused_keys kwargs s)) a = heap s a"
    using assms by (rule construct_frame)
  ultimately show ?thesis by simp
qed

text \<open>The configuration at address 0 after a call that drops two of its keys and warns.\<close>

theorem caller_config_not_mutated_witness:
  "heap (snd (instantiate ex_A 0 [] ex_kw ex_state)) 0 = ex_cfg
   \<and> heap (snd (construct ex_store ''model'' (Dict 0) [] ex_kw ex_state)) 0 = ex_cfg
   \<and> DAList.impl_of ex_cfg = [(''name'', VStr ''dlrm''), (''a'', VInt 1), (''c'', VInt 3)]"
proof -
  have a: "0 < nxt ex_state" by (simp add: ex_state_simps)
  have i: "DAList.impl_of ex_cfg = [(''name'', VStr ''dlrm''), (''a'', VInt 1), (''c'', VInt 3)]"
    by (simp add: ex_cfg_def DAList.update.rep_eq DAList.empty.rep_eq)
  show ?thesis
    using caller_config_not_mutated [OF a, of ex_A 0 "[]" ex_kw ex_store "''model''" "Dict 0"] i
    by (simp add: ex_state_simps)
qed

text \<open>
  C2 (as amended). When \<open>construct\<close> calls the constructor that \<open>lookup\<close> resolved,
  and that constructor declares neither a parameter \<open>name\<close> nor a variadic-keyword
  parameter, no argument \<open>name\<close> is passed; a constructor with a variadic-keyword
  parameter receives the \<open>name\<close> field with the rest of the merged mapping.
\<close>

theorem construct_name_argument:
  assumes "fst (construct S kind config unused_keys kwargs s) = Inr (Invoke c args)"
  shows "lookup S kind
           (case config of
              Str n \<Rightarrow> Name n
            | Dict a \<Rightarrow> Mapping (heap s a)) = Inr c
       \<and> (\<not> has_var_keyword c \<and> \<not> declares c ''name'' \<longrightarrow> DAList.lookup args ''name'' = None)
       \<and> (has_var_keyword c \<longrightarrow> DAList.lookup args ''name'' \<noteq> None)"
proof -
  from construct_Invoke [OF assms] obtain d where
    l: "lookup S kind (Mapping d) = Inr c"
    and d: "d = (case config of
                    Str n \<Rightarrow> DAList.update ''name'' (VStr n) DAList.empty
                  | Dict a \<Rightarrow> heap s a)"
    and v: "has_var_keyword c \<longrightarrow> args = dict_merge d kwargs"
    and f: "\<not> has_var_keyword c \<longrightarrow> args = recognized c (dict_merge d kwargs)"
    by blast
  have r: "lookup S kind (case config of Str n \<Rightarrow> Name n | Dict a \<Rightarrow> Mapping (heap s a)) = Inr c"
    using l d by (cases config) (simp_all add: lookup_def)
  have n: "\<not> has_var_keyword c \<and> \<not> declares c ''name'' \<longrightarrow> DAList.lookup args ''name'' = None"
    using f by (simp add: lookup_recognized)
  from lookup_Mapping_Inr [OF l] obtain w where "DAList.lookup d ''name'' = Some w" by blast
  then have "DAList.lookup (dict_merge d kwargs) ''name'' \<noteq> None"
    by (simp add: lookup_dict_merge split: option.splits)
  with v have k: "has_var_keyword c \<longrightarrow> DAList.lookup args ''name'' \<noteq> None"
    by simp
  from r n k show ?thesis by simp
qed

text \<open>\<open>construct("model", config, (), b=99)\<close> with the configuration at address 0.\<close>

theorem construct_name_argument_witness:
  "fst (construct ex_store ''model'' (Dict 0) [] ex_kw ex_state)
     = Inr (Invoke ex_A (recognized ex_A (dict_merge ex_cfg ex_kw)))
   \<and> lookup ex_store ''model'' (Mapping ex_cfg) = Inr ex_A
   \<and> DAList.lookup ex_cfg ''name'' = Some (VStr ''dlrm'')
   \<and> DAList.lookup (recognized ex_A (dict_merge ex_cfg ex_kw)) ''name'' = None
   \<and> DAList.lookup (recognized ex_A (dict_merge ex_cfg ex_kw)) ''a'' = Some (VInt 1)"
proof -
  have l: "lookup ex_store ''model'' (Mapping ex_cfg) = Inr ex_A"
    by (simp add: lookup_Mapping [OF lookup_ex_cfg_name] ex_store_simps bucket_getitem_def)
  have k: "''callable'' \<notin> set (dict_keys ex_kw)"
    by (simp add: dict_keys_def ex_kw_def DAList.update.rep_eq DAList.empty.rep_eq)
  have p: "fst (construct ex_store ''model'' (Dict 0) [] ex_kw ex_state)
             = Inr (Invoke ex_A (recognized ex_A (dict_merge ex_cfg ex_kw)))"
    using l k
    by (simp add: construct_def ex_state_simps instantiate_filtered [OF ex_A_kinds refl])
  have d: "\<not> declares ex_A ''name''" "declares ex_A ''a''"
    by (simp_all add: declares_def ex_A_def)
  have a: "DAList.lookup (recognized ex_A (dict_merge ex_cfg ex_kw)) ''a'' = Some (VInt 1)"
    using d by (simp add: lookup_recognized lookup_dict_merge ex_kw_def ex_cfg_def)
  show ?thesis
    using construct_name_argument [OF p] p l d a ex_A_kinds lookup_ex_cfg_name
    by (simp add: ex_state_simps)
qed

text \<open>
  C2 as stated fails for a constructor with a variadic-keyword parameter: the constructor
  registered under \<open>(worker, r)\<close> declares \<open>(a, **rest)\<close>, no parameter \<open>name\<close>, and
  \<open>construct("worker", "r")\<close> calls it with \<open>name="r"\<close>.
\<close>

theorem catch_all_receives_name_counterexample:
  "fst (construct ex_store ''worker'' (Str ''r'') [] DAList.empty ex_state)
     = Inr (Invoke ex_R (DAList.update ''name'' (VStr ''r'') DAList.empty))
   \<and> lookup ex_store ''worker'' (Name ''r'') = Inr ex_R
   \<and> \<not> declares ex_R ''name''
   \<and> DAList.lookup (DAList.update ''name'' (VStr ''r'') DAList.empty) ''name'' = Some (VStr ''r'')"
proof -
  let ?d = "DAList.update ''name'' (VStr ''r'') DAList.empty :: pydict"
  have n: "DAList.lookup ?d ''name'' = Some (VStr ''r'')" by simp
  have l: "lookup ex_store ''worker'' (Mapping ?d) = Inr ex_R"
    by (simp add: lookup_Mapping [OF n] ex_store_simps bucket_getitem_def)
  have k: "''callable'' \<notin> set (dict_keys (DAList.empty :: pydict))"
    by (simp add: dict_keys_def DAList.empty.rep_eq)
  have m: "dict_merge ?d DAList.empty = ?d"
    by (simp add: dict_merge_def DAList.empty.rep_eq)
  have p: "fst (construct ex_store ''worker'' (Str ''r'') [] DAList.empty ex_state) = Inr (Invoke ex_R ?d)"
    using l k m
    by (simp add: construct_def new_dict_def ex_state_simps instantiate_var_keyword [OF ex_R_kinds])
  have d: "\<not> declares ex_R ''name''" by (simp add: declares_def ex_R_def)
  have q: "lookup ex_store ''worker'' (Name ''r'') = Inr ex_R"
    by (simp add: lookup_Name ex_store_simps)
  from p q d n show ?thesis by simp
qed

end
